theory Spec2Isabelle
  imports Complex_Main "HOL-Library.AList" "HOL-Library.Sublist"
begin

section \<open>Telemetry parsing (protocols/state\_protocol.py)\<close>

text \<open>
  A Python \<open>str\<close> is modelled as a \<open>string\<close> whose characters are the code points
  below 256. A parsed field value is dynamically typed in the source: an \<open>int\<close>, a
  \<open>float\<close>, or the original \<open>str\<close>. The type of floating-point values is left as a
  type parameter.
\<close>

datatype 'f pyval = PInt int | PFloat 'f | PStr string

datatype kind = KInt | KFloat

text \<open>The dictionary \<open>self.state_types\<close>, in source order.\<close>

definition state_types_items :: "(string \<times> kind) list" where
  "state_types_items =
    [(''mid'', KInt), (''x'', KInt), (''y'', KInt), (''z'', KInt),
     (''pitch'', KFloat), (''roll'', KFloat), (''yaw'', KFloat),
     (''vgx'', KFloat), (''vgy'', KFloat), (''vgz'', KFloat),
     (''templ'', KFloat), (''temph'', KFloat), (''tof'', KFloat),
     (''h'', KFloat), (''bat'', KFloat), (''baro'', KFloat),
     (''time'', KFloat), (''agx'', KFloat), (''agy'', KFloat), (''agz'', KFloat)]"

definition state_types :: "string \<rightharpoonup> kind" where
  "state_types = map_of state_types_items"

text \<open>The dictionary \<open>self.state_descriptions\<close>, in source order. The degree sign of
  the two temperature descriptions is code point 0xB0.\<close>

definition state_descriptions_items :: "(string \<times> string) list" where
  "state_descriptions_items =
    [(''mid'', ''Mission Pad ID (-1 if not detected)''),
     (''x'', ''X coordinate on Mission Pad (0 if not detected)''),
     (''y'', ''Y coordinate on Mission Pad (0 if not detected)''),
     (''z'', ''Z coordinate on Mission Pad (0 if not detected)''),
     (''pitch'', ''Attitude pitch in degrees''),
     (''roll'', ''Attitude roll in degrees''),
     (''yaw'', ''Attitude yaw in degrees''),
     (''vgx'', ''Speed on X axis''),
     (''vgy'', ''Speed on Y axis''),
     (''vgz'', ''Speed on Z axis''),
     (''templ'', ''Lowest temperature in '' @ [CHR 0xB0] @ ''C''),
     (''temph'', ''Highest temperature in '' @ [CHR 0xB0] @ ''C''),
     (''tof'', ''Time of flight distance in cm''),
     (''h'', ''Height in cm''),
     (''bat'', ''Battery percentage''),
     (''baro'', ''Barometer measurement in cm''),
     (''time'', ''Motor time in seconds''),
     (''agx'', ''Acceleration on X axis''),
     (''agy'', ''Acceleration on Y axis''),
     (''agz'', ''Acceleration on Z axis'')]"

definition state_descriptions :: "string \<rightharpoonup> string" where
  "state_descriptions = map_of state_descriptions_items"

subsection \<open>String primitives\<close>

text \<open>\<open>str.isspace\<close> on the code points below 256: TAB, LF, VT, FF, CR, the four
  separators 0x1C..0x1F, SPACE, NEL (0x85) and NBSP (0xA0).\<close>

definition py_isspace :: "char \<Rightarrow> bool" where
  "py_isspace c \<longleftrightarrow>
     (of_char c :: nat) \<in> {9, 10, 11, 12, 13, 28, 29, 30, 31, 32, 133, 160}"

text \<open>\<open>s.strip()\<close>: whitespace removed at both ends.\<close>

definition strip :: "string \<Rightarrow> string" where
  "strip s = rev (dropWhile py_isspace (rev (dropWhile py_isspace s)))"

text \<open>\<open>s.split(d)\<close> for a one-character separator: never empty, one more piece than
  there are separators.\<close>

fun split_on :: "char \<Rightarrow> string \<Rightarrow> string list" where
  "split_on d [] = [[]]"
| "split_on d (c # cs) =
     (if c = d then [] # split_on d cs
      else (case split_on d cs of
              w # ws \<Rightarrow> (c # w) # ws
            | [] \<Rightarrow> [[c]]))"

text \<open>\<open>key, value = pair.split(':', 1)\<close>, for a pair that contains a colon.\<close>

definition key_of :: "string \<Rightarrow> string" where
  "key_of pair = takeWhile (\<lambda>c. c \<noteq> CHR '':'') pair"

definition value_of :: "string \<Rightarrow> string" where
  "value_of pair = tl (dropWhile (\<lambda>c. c \<noteq> CHR '':'') pair)"

subsection \<open>parse\_state\_data\<close>

text \<open>
  The built-in conversions \<open>int(value)\<close> and \<open>float(value)\<close> are parameters
  \<open>py_int\<close> and \<open>py_float\<close>: applied to a \<open>str\<close> they either return a number or
  raise \<open>ValueError\<close>, which is the result \<open>None\<close> here. The \<open>try\<close> block of the
  source catches exactly that exception and keeps the string.
\<close>

definition convert ::
  "(string \<Rightarrow> int option) \<Rightarrow> (string \<Rightarrow> 'f option) \<Rightarrow> string \<Rightarrow> string \<Rightarrow> 'f pyval" where
  "convert py_int py_float key value =
     (case state_types key of
        None \<Rightarrow> PStr value
      | Some KInt \<Rightarrow> (case py_int value of Some i \<Rightarrow> PInt i | None \<Rightarrow> PStr value)
      | Some KFloat \<Rightarrow> (case py_float value of Some x \<Rightarrow> PFloat x | None \<Rightarrow> PStr value))"

text \<open>One pass of the \<open>for pair in pairs\<close> body. The result dictionary is an
  association list in insertion order; assigning to an existing key keeps its position.\<close>

definition parse_pair ::
  "(string \<Rightarrow> int option) \<Rightarrow> (string \<Rightarrow> 'f option) \<Rightarrow> string \<Rightarrow>
   (string \<times> 'f pyval) list \<Rightarrow> (string \<times> 'f pyval) list" where
  "parse_pair py_int py_float pair state_data =
     (if pair = [] then state_data
      else if CHR '':'' \<in> set pair then
        AList.update (key_of pair) (convert py_int py_float (key_of pair) (value_of pair))
          state_data
      else state_data)"

definition parse_state_data ::
  "(string \<Rightarrow> int option) \<Rightarrow> (string \<Rightarrow> 'f option) \<Rightarrow> string \<Rightarrow> (string \<times> 'f pyval) list" where
  "parse_state_data py_int py_float state_string =
     fold (parse_pair py_int py_float) (split_on CHR '';'' (strip state_string)) []"

subsection \<open>The line as the specification reads it\<close>

text \<open>
  The specification speaks of a line \<open>k1:v1;k2:v2;...\<close> and of the keys present in
  it. \<open>segments\<close> are the pieces between semicolons of the line without its outer
  whitespace; a line consists of key:value pairs when every non-empty segment contains
  a colon. \<open>raw_pairs\<close> are the key and value texts of the segments that contain a
  colon, in order, and \<open>last_value line k\<close> is the value text of the last pair with key
  \<open>k\<close>.
\<close>

definition segments :: "string \<Rightarrow> string list" where
  "segments line = split_on CHR '';'' (strip line)"

definition well_formed_line :: "string \<Rightarrow> bool" where
  "well_formed_line line \<longleftrightarrow> (\<forall>p \<in> set (segments line). p = [] \<or> CHR '':'' \<in> set p)"

definition raw_pairs :: "string \<Rightarrow> (string \<times> string) list" where
  "raw_pairs line =
     map (\<lambda>p. (key_of p, value_of p)) (filter (\<lambda>p. CHR '':'' \<in> set p) (segments line))"

definition last_value :: "string \<Rightarrow> string \<rightharpoonup> string" where
  "last_value line = map_of (rev (raw_pairs line))"

subsection \<open>The state envelope of datagram\_received\<close>

text \<open>The inner dictionary \<open>{"value": ..., "description": ...}\<close> and the dictionary
  \<open>enhanced_state\<close> built for every decoded telemetry datagram (its entry
  \<open>"fields"\<close> is \<open>field_dict\<close>).\<close>

record 'f field_entry =
  field_value :: "'f pyval"
  description :: string

record ('f, 't) enhanced_state =
  origin :: string
  raw :: string
  parsed :: "(string \<times> 'f pyval) list"
  timestamp :: 't
  field_dict :: "(string \<times> 'f field_entry) list"

text \<open>\<open>self.state_descriptions.get(key, "Unknown parameter")\<close>.\<close>

definition describe_key :: "string \<Rightarrow> string" where
  "describe_key key =
     (case state_descriptions key of Some d \<Rightarrow> d | None \<Rightarrow> ''Unknown parameter'')"

text \<open>The loop \<open>for key, value in state_data.items()\<close> filling \<open>fields\<close>.\<close>

definition add_field ::
  "string \<times> 'f pyval \<Rightarrow> (string \<times> 'f field_entry) list \<Rightarrow> (string \<times> 'f field_entry) list" where
  "add_field kv fs =
     AList.update (fst kv) \<lparr>field_value = snd kv, description = describe_key (fst kv)\<rparr> fs"

definition build_enhanced_state ::
  "(string \<Rightarrow> int option) \<Rightarrow> (string \<Rightarrow> 'f option) \<Rightarrow> string \<Rightarrow> 't \<Rightarrow> ('f, 't) enhanced_state" where
  "build_enhanced_state py_int py_float message now =
     (let state_data = parse_state_data py_int py_float message
      in \<lparr>origin = ''state'', raw = message, parsed = state_data, timestamp = now,
          field_dict = fold add_field state_data []\<rparr>)"

subsection \<open>Decimal conversions for running the parser\<close>

text \<open>
  The theorems about the parser hold for every pair of conversions. Where the parser
  is run on a concrete line, the two conversions below are put in their place. They
  are not \<open>int\<close> and \<open>float\<close>: they accept only an optional minus sign followed by at
  least one decimal digit, so they reject strings that the built-ins accept (surrounding
  whitespace, a plus sign, underscores, a fraction or an exponent, \<open>inf\<close>, \<open>nan\<close>),
  and \<open>decimal_rat\<close> returns the integer that the digits denote without rounding it
  to a double. On the value texts of the lines they are used on (\<open>-1\<close>, \<open>0\<close>, \<open>87\<close>,
  \<open>10\<close>, \<open>abc\<close>, \<open>bar\<close>) they agree with \<open>int\<close> and \<open>float\<close>: both accept the four
  numerals with the values -1, 0, 87 and 10, and both raise \<open>ValueError\<close> on the two
  words.
\<close>

fun digits_val :: "string \<Rightarrow> nat \<Rightarrow> nat option" where
  "digits_val [] acc = Some acc"
| "digits_val (c # cs) acc =
     (if 48 \<le> (of_char c :: nat) \<and> (of_char c :: nat) \<le> 57
      then digits_val cs (acc * 10 + (of_char c - 48)) else None)"

definition decimal_int :: "string \<Rightarrow> int option" where
  "decimal_int s =
     (case s of
        [] \<Rightarrow> None
      | c # cs \<Rightarrow>
          if c = CHR ''-'' then
            (if cs = [] then None else map_option (\<lambda>n. - int n) (digits_val cs 0))
          else map_option int (digits_val s 0))"

definition decimal_rat :: "string \<Rightarrow> rat option" where
  "decimal_rat s = map_option of_int (decimal_int s)"

section \<open>The command channel (protocols/base\_protocol.py, protocols/command\_protocol.py)\<close>

text \<open>
  Effects are recorded as a list of events in the order in which the code performs
  them: \<open>transport.sendto\<close>, \<open>transport.close\<close>, \<open>asyncio.sleep\<close>, and the log
  records of level info and above. A transport object is a handle (a number). A
  reading of the event-loop clock is a double; it is represented by the rational number
  it denotes, so comparisons of readings are exact, and the one floating-point operation
  on readings, the subtraction in \<open>_health_monitor\<close>, is a parameter of the model.
\<close>

type_synonym addr = "string \<times> nat"

datatype level = Info | Warning | Error

datatype log_msg =
    SocketReady addr
  | QueuingMessage string
  | TransportNotReady
  | ProcessingQueued nat
  | StartingReconnection
  | ReconnectionAttempt nat nat
  | ReconnectFailed
  | NoResponse rat
  | ReconnectionRequestDetected
  | RecreatingSocket

datatype event =
    Sendto nat string addr
  | Close nat
  | Sleep rat
  | Log level log_msg

text \<open>The attributes of a \<open>TelloProtocol\<close> object. \<open>transport = None\<close> is Python's
  \<open>None\<close>.\<close>

record protocol =
  transport :: "nat option"
  connected :: bool
  last_response_time :: rat
  tello_addr :: addr
  command_queue :: "string list"

text \<open>\<open>TelloProtocol.__init__\<close> after \<open>BaseProtocol.__init__\<close>.\<close>

definition new_protocol :: "addr \<Rightarrow> protocol" where
  "new_protocol a =
     \<lparr>transport = None, connected = False, last_response_time = 0, tello_addr = a,
      command_queue = []\<rparr>"

text \<open>\<open>send_to_tello\<close>. The datagram payload is the UTF-8 encoding of the message and
  is recorded as the message itself.\<close>

definition send_to_tello :: "string \<Rightarrow> protocol \<Rightarrow> protocol \<times> event list" where
  "send_to_tello message p =
     (if \<not> connected p then
        (p\<lparr>command_queue := command_queue p @ [message]\<rparr>,
         [Log Warning (QueuingMessage message)])
      else
        (case transport p of
           None \<Rightarrow> (p, [Log Warning TransportNotReady])
         | Some t \<Rightarrow> (p, [Sendto t message (tello_addr p)])))"

text \<open>
  \<open>for cmd in self.command_queue: self.send_to_tello(cmd)\<close>. The list iterator holds
  an index into the live list, and \<open>send_to_tello\<close> may append to that list, so the
  loop is not structurally bounded: it is a partial function, \<open>None\<close> when it does
  not return.
\<close>

partial_function (option) queue_loop ::
  "nat \<Rightarrow> protocol \<Rightarrow> event list \<Rightarrow> (protocol \<times> event list) option" where
  "queue_loop i p evs =
     (if i < length (command_queue p) then
        queue_loop (Suc i) (fst (send_to_tello (command_queue p ! i) p))
          (evs @ snd (send_to_tello (command_queue p ! i) p))
      else Some (p, evs))"

definition process_command_queue :: "protocol \<Rightarrow> (protocol \<times> event list) option" where
  "process_command_queue p =
     (if command_queue p = [] then Some (p, [])
      else
        (case queue_loop 0 p [Log Info (ProcessingQueued (length (command_queue p)))] of
           None \<Rightarrow> None
         | Some (p', evs) \<Rightarrow> Some (p'\<lparr>command_queue := []\<rparr>, evs)))"

text \<open>\<open>connection_made\<close>: the base class stores the transport and sets the flag, then
  the queue is processed and the initial command is sent.\<close>

definition connection_made :: "nat \<Rightarrow> protocol \<Rightarrow> (protocol \<times> event list) option" where
  "connection_made t p =
     (let p1 = p\<lparr>transport := Some t, connected := True\<rparr>
      in case process_command_queue p1 of
           None \<Rightarrow> None
         | Some (p2, evs) \<Rightarrow>
             Some (fst (send_to_tello ''command'' p2),
                   [Log Info (SocketReady (tello_addr p1))] @ evs
                     @ snd (send_to_tello ''command'' p2)))"

text \<open>\<open>datagram_received\<close>: both branches (decoded text, binary payload) store the
  current loop time; the broadcast task that the text branch creates is outside this
  record.\<close>

definition datagram_received :: "rat \<Rightarrow> protocol \<Rightarrow> protocol" where
  "datagram_received now p = p\<lparr>last_response_time := now\<rparr>"

subsection \<open>\_reconnect\<close>

text \<open>
  The module \<open>command_protocol\<close> has a module-level variable \<open>need_reconnect\<close>. The
  package module \<open>tello_bridge\<close> executes
  \<open>from .protocols.command_protocol import TelloProtocol, need_reconnect\<close>, which
  creates a variable \<open>need_reconnect\<close> of its own, bound to the value the other had at
  import time (\<open>False\<close>). A \<open>global need_reconnect\<close> statement names the variable of the
  module whose source contains the function: \<open>_reconnect\<close> assigns
  \<open>cp_need_reconnect\<close>, while \<open>_health_monitor\<close> and \<open>_main_loop\<close> read and assign
  \<open>tb_need_reconnect\<close>.
\<close>

record system =
  cp_need_reconnect :: bool
  tb_need_reconnect :: bool
  socket_addr :: addr
  tello_protocol :: "protocol option"
  cmd_transport :: "nat option"
  next_transport :: nat

text \<open>The state after import and \<open>TelloBridge.__init__\<close>; \<open>next_transport\<close> numbers the
  transport objects that the event loop will create.\<close>

definition new_system :: "addr \<Rightarrow> system" where
  "new_system a =
     \<lparr>cp_need_reconnect = False, tb_need_reconnect = False, socket_addr = a,
      tello_protocol = None, cmd_transport = None, next_transport = 0\<rparr>"

definition max_retries :: nat where
  "max_retries = 10"

text \<open>
  The \<open>while\<close> loop of \<open>_reconnect\<close>. \<open>self.connected\<close> is changed by other callbacks
  while the coroutine sleeps; \<open>self_connected n\<close> is the value the loop condition reads
  when \<open>retries = n\<close>. The check after the loop reads the flag again with no suspension
  point in between. The literal \<open>1.5\<close> is the rational 3/2; every product the loop
  forms from the start value 5 is a dyadic rational with a short mantissa, so the
  floating-point products are exact.
\<close>

function reconnect_loop ::
  "(nat \<Rightarrow> bool) \<Rightarrow> nat \<Rightarrow> rat \<Rightarrow> system \<Rightarrow> system \<times> event list" where
  "reconnect_loop self_connected retries retry_delay s =
     (if \<not> self_connected retries \<and> retries < max_retries then
        (let r = reconnect_loop self_connected (retries + 1) (min 30 (retry_delay * (3 / 2)))
                   (s\<lparr>cp_need_reconnect := True\<rparr>)
         in (fst r,
             [Log Info (ReconnectionAttempt (retries + 1) max_retries), Sleep retry_delay]
               @ snd r))
      else (s, if \<not> self_connected retries then [Log Error ReconnectFailed] else []))"
  by pat_completeness auto
termination
  by (relation "measure (\<lambda>(c, retries, d, s). max_retries - retries)") auto

declare reconnect_loop.simps [simp del]

definition reconnect :: "(nat \<Rightarrow> bool) \<Rightarrow> system \<Rightarrow> system \<times> event list" where
  "reconnect self_connected s =
     (let r = reconnect_loop self_connected 0 5 s
      in (fst r, Log Info StartingReconnection # snd r))"

text \<open>The delay sequence as the specification words it: it starts at 5 and each
  further delay is \<open>min(30, previous * 1.5)\<close>.\<close>

fun backoff_delay :: "nat \<Rightarrow> rat" where
  "backoff_delay 0 = 5"
| "backoff_delay (Suc n) = min 30 (backoff_delay n * (3 / 2))"

section \<open>The bridge (tello\_bridge/\_\_init\_\_.py)\<close>

text \<open>\<open>_create_udp_socket\<close>: the event loop constructs a \<open>TelloProtocol\<close> for the
  configured address, opens a transport and calls \<open>connection_made\<close> on it.\<close>

definition create_udp_socket :: "system \<Rightarrow> (nat \<times> protocol \<times> event list \<times> system) option" where
  "create_udp_socket s =
     (case connection_made (next_transport s) (new_protocol (socket_addr s)) of
        None \<Rightarrow> None
      | Some (p, evs) \<Rightarrow>
          Some (next_transport s, p, evs, s\<lparr>next_transport := Suc (next_transport s)\<rparr>))"

text \<open>One pass of the body of \<open>while True\<close> in \<open>_health_monitor\<close>; \<open>now\<close> is the reading
  of the loop clock after the sleep. \<open>float_sub\<close> is the subtraction of two doubles as
  the machine performs it, \<open>current_time - self.tello_protocol.last_response_time\<close>: the
  exact difference rounded to a double.\<close>

definition health_monitor_tick ::
  "(rat \<Rightarrow> rat \<Rightarrow> rat) \<Rightarrow> rat \<Rightarrow> system \<Rightarrow> system \<times> event list" where
  "health_monitor_tick float_sub now s =
     (let r =
        (case tello_protocol s of
           None \<Rightarrow> (None, [])
         | Some p \<Rightarrow>
             if connected p then
               (let time_since_last_response = float_sub now (last_response_time p)
                in if last_response_time p > 0 \<and> time_since_last_response > 15 then
                     (Some (fst (send_to_tello ''command'' p)),
                      Log Warning (NoResponse time_since_last_response)
                        # snd (send_to_tello ''command'' p))
                   else (Some p, []))
             else (Some p, []));
        s1 = s\<lparr>tello_protocol := fst r\<rparr>
      in if tb_need_reconnect s1 then
           (s1\<lparr>tb_need_reconnect := False\<rparr>,
            Sleep 10 # snd r @ [Log Info ReconnectionRequestDetected])
         else (s1, Sleep 10 # snd r))"

text \<open>One pass of the body of \<open>while True\<close> in \<open>_main_loop\<close>.\<close>

definition main_loop_iteration :: "system \<Rightarrow> (system \<times> event list) option" where
  "main_loop_iteration s =
     (if tb_need_reconnect s then
        (let closing = (case cmd_transport s of Some t \<Rightarrow> [Close t] | None \<Rightarrow> [])
         in case create_udp_socket s of
              None \<Rightarrow> None
            | Some (t, p, evs, s1) \<Rightarrow>
                Some (s1\<lparr>cmd_transport := Some t,
                          tello_protocol := Some (fst (send_to_tello ''command'' p)),
                          tb_need_reconnect := False\<rparr>,
                      [Log Info RecreatingSocket] @ closing @ evs @ [Sleep 2]
                        @ snd (send_to_tello ''command'' p) @ [Sleep 1]))
      else Some (s, [Sleep 1]))"

text \<open>The loop itself never returns; \<open>main_loop n\<close> is its first \<open>n\<close> passes.\<close>

fun main_loop :: "nat \<Rightarrow> system \<Rightarrow> (system \<times> event list) option" where
  "main_loop 0 s = Some (s, [])"
| "main_loop (Suc n) s =
     (case main_loop_iteration s of
        None \<Rightarrow> None
      | Some (s1, evs) \<Rightarrow>
          (case main_loop n s1 of
             None \<Rightarrow> None
           | Some (s2, evs') \<Rightarrow> Some (s2, evs @ evs')))"

text \<open>\<open>_setup_sockets\<close>, as far as the command channel is concerned.\<close>

definition setup_sockets :: "system \<Rightarrow> (system \<times> event list) option" where
  "setup_sockets s =
     (case create_udp_socket s of
        None \<Rightarrow> None
      | Some (t, p, evs, s1) \<Rightarrow>
          Some (s1\<lparr>cmd_transport := Some t, tello_protocol := Some p\<rparr>, evs))"

section \<open>The client registry (websocket/\_\_init\_\_.py)\<close>

text \<open>\<open>connected_websockets\<close> is a Python set. \<open>handle_websocket\<close> registers its client
  with \<open>connected_websockets.add\<close> on entry and unregisters it with
  \<open>connected_websockets.remove\<close> in its \<open>finally\<close> block; \<open>set.remove\<close> raises
  \<open>KeyError\<close> for an element that is not a member.\<close>

datatype py_error = KeyError

definition register :: "'c \<Rightarrow> 'c set \<Rightarrow> 'c set" where
  "register websocket connected_websockets = insert websocket connected_websockets"

definition unregister :: "'c \<Rightarrow> 'c set \<Rightarrow> py_error + 'c set" where
  "unregister websocket connected_websockets =
     (if websocket \<in> connected_websockets then Inr (connected_websockets - {websocket})
      else Inl KeyError)"

section \<open>Double-precision subtraction near 15\<close>



section \<open>Observations on event lists\<close>

text \<open>The datagrams handed to \<open>transport.sendto\<close>, in order.\<close>

fun datagrams :: "event list \<Rightarrow> (nat \<times> string \<times> addr) list" where
  "datagrams [] = []"
| "datagrams (Sendto t m a # evs) = (t, m, a) # datagrams evs"
| "datagrams (_ # evs) = datagrams evs"


text \<open>The sleeps, in order.\<close>

fun sleeps :: "event list \<Rightarrow> rat list" where
  "sleeps [] = []"
| "sleeps (Sleep d # evs) = d # sleeps evs"
| "sleeps (_ # evs) = sleeps evs"

text \<open>The attempt numbers announced by \<open>_reconnect\<close>, in order.\<close>

fun attempts :: "event list \<Rightarrow> nat list" where
  "attempts [] = []"
| "attempts (Log Info (ReconnectionAttempt n m) # evs) = n # attempts evs"
| "attempts (_ # evs) = attempts evs"

text \<open>A caller invoking \<open>send_to_tello\<close> on each message of a list in turn.\<close>

definition send_all :: "string list \<Rightarrow> protocol \<Rightarrow> protocol" where
  "send_all ms p = fold (\<lambda>m q. fst (send_to_tello m q)) ms p"

section \<open>Properties of the telemetry parser\<close>

subsection \<open>The two static tables\<close>

lemma state_types_KInt:
  "state_types k = Some KInt \<longleftrightarrow> k \<in> {''mid'', ''x'', ''y'', ''z''}"
  by (auto simp add: state_types_def state_types_items_def)

lemma state_types_KFloat:
  "state_types k = Some KFloat \<longleftrightarrow>
     k \<in> {''pitch'', ''roll'', ''yaw'', ''vgx'', ''vgy'', ''vgz'', ''templ'', ''temph'',
          ''tof'', ''h'', ''bat'', ''baro'', ''time'', ''agx'', ''agy'', ''agz''}"
  by (auto simp add: state_types_def state_types_items_def)

lemma state_descriptions_None:
  "state_descriptions k = None \<longleftrightarrow> state_types k = None"
  by (auto simp add: state_types_def state_types_items_def
      state_descriptions_def state_descriptions_items_def)

subsection \<open>The parsed dictionary as a function of the line\<close>

lemma parse_pair_colon:
  "CHR '':'' \<in> set p \<Longrightarrow>
   parse_pair ci cf p acc = AList.update (key_of p) (convert ci cf (key_of p) (value_of p)) acc"
  by (auto simp add: parse_pair_def)

lemma parse_pair_no_colon:
  "CHR '':'' \<notin> set p \<Longrightarrow> parse_pair ci cf p acc = acc"
  by (simp add: parse_pair_def)

lemma map_of_fold_parse_pair:
  "map_of (fold (parse_pair ci cf) ps acc) k =
     (case map_of (rev (map (\<lambda>p. (key_of p, value_of p))
                         (filter (\<lambda>p. CHR '':'' \<in> set p) ps))) k of
        Some v \<Rightarrow> Some (convert ci cf k v)
      | None \<Rightarrow> map_of acc k)"
proof (induction ps arbitrary: acc)
  case Nil
  then show ?case by simp
next
  case (Cons p ps)
  show ?case
  proof (cases "CHR '':'' \<in> set p")
    case True
    show ?thesis
      by (simp add: True Cons.IH parse_pair_colon update_conv' map_add_def
          split: option.splits)
  next
    case False
    then show ?thesis
      by (simp add: Cons.IH parse_pair_no_colon)
  qed
qed

lemma map_of_parse_state_data:
  "map_of (parse_state_data ci cf line) k = map_option (convert ci cf k) (last_value line k)"
  by (simp add: parse_state_data_def map_of_fold_parse_pair last_value_def raw_pairs_def
      segments_def split: option.splits)

lemma distinct_fold_parse_pair:
  "distinct (map fst acc) \<Longrightarrow> distinct (map fst (fold (parse_pair ci cf) ps acc))"
proof (induction ps arbitrary: acc)
  case Nil
  then show ?case by simp
next
  case (Cons p ps)
  have "distinct (map fst (parse_pair ci cf p acc))"
    using Cons.prems by (cases "CHR '':'' \<in> set p")
      (simp_all add: parse_pair_colon parse_pair_no_colon distinct_update)
  then show ?case by (simp add: Cons.IH)
qed

lemma distinct_parse_state_data: "distinct (map fst (parse_state_data ci cf line))"
  by (simp add: parse_state_data_def distinct_fold_parse_pair)

lemma keys_parse_state_data:
  "fst ` set (parse_state_data ci cf line) = fst ` set (raw_pairs line)"
proof -
  have "dom (map_of (parse_state_data ci cf line)) = dom (last_value line)"
    by (auto simp add: map_of_parse_state_data dom_def)
  then show ?thesis
    by (simp add: dom_map_of_conv_image_fst last_value_def)
qed

lemma raw_pairs_well_formed:
  "well_formed_line line \<Longrightarrow>
   map fst (raw_pairs line) = map key_of (filter (\<lambda>p. p \<noteq> []) (segments line))"
proof -
  assume wf: "well_formed_line line"
  have "filter (\<lambda>p. CHR '':'' \<in> set p) (segments line) = filter (\<lambda>p. p \<noteq> []) (segments line)"
    using wf by (intro filter_cong) (auto simp add: well_formed_line_def)
  then show ?thesis by (simp add: raw_pairs_def comp_def)
qed

lemma split_on_nonempty: "split_on d s \<noteq> []"
  by (cases s) (simp_all split: list.splits)

lemma split_on_pieces:
  "split_on d s = w # ws \<Longrightarrow> prefix w s \<and> (\<forall>p \<in> set ws. sublist p s)"
proof (induction s arbitrary: w ws)
  case Nil
  then show ?case by simp
next
  case (Cons c cs)
  show ?case
  proof (cases "c = d")
    case True
    with Cons.prems have w: "w = []" and ws: "ws = split_on d cs" by simp_all
    obtain w' ws' where e: "split_on d cs = w' # ws'"
      using split_on_nonempty[of d cs] by (cases "split_on d cs") simp_all
    from Cons.IH[OF e] have "\<forall>p \<in> set (split_on d cs). sublist p cs"
      unfolding e by (auto intro: prefix_imp_sublist)
    then show ?thesis by (simp add: w ws sublist_Cons_right)
  next
    case False
    obtain w' ws' where e: "split_on d cs = w' # ws'"
      using split_on_nonempty[of d cs] by (cases "split_on d cs") simp_all
    with False Cons.prems have w: "w = c # w'" and ws: "ws = ws'" by simp_all
    from Cons.IH[OF e] show ?thesis by (simp add: w ws sublist_Cons_right)
  qed
qed

lemma split_on_sublist: "p \<in> set (split_on d s) \<Longrightarrow> sublist p s"
proof -
  assume p: "p \<in> set (split_on d s)"
  then obtain w ws where e: "split_on d s = w # ws" by (cases "split_on d s") auto
  from split_on_pieces[OF e] p show ?thesis
    unfolding e by (auto intro: prefix_imp_sublist)
qed

lemma strip_sublist: "sublist (strip s) s"
proof -
  have "suffix (dropWhile py_isspace (rev (dropWhile py_isspace s))) (rev (dropWhile py_isspace s))"
    by (rule suffix_dropWhile)
  then have "sublist (dropWhile py_isspace (rev (dropWhile py_isspace s)))
                (rev (dropWhile py_isspace s))"
    by (rule suffix_imp_sublist)
  then have a: "sublist (strip s) (dropWhile py_isspace s)"
    unfolding strip_def using sublist_rev[of "dropWhile py_isspace (rev (dropWhile py_isspace s))"
        "rev (dropWhile py_isspace s)"] by simp
  have b: "sublist (dropWhile py_isspace s) s"
    by (rule suffix_imp_sublist) (rule suffix_dropWhile)
  from a b show ?thesis by (rule sublist_order.order_trans)
qed

lemma key_sublist_line:
  assumes "k \<in> fst ` set (parse_state_data ci cf line)"
  shows "sublist k line"
proof -
  from assms have "k \<in> fst ` set (raw_pairs line)" by (simp add: keys_parse_state_data)
  then obtain p where p: "p \<in> set (segments line)" and k: "k = key_of p"
    by (auto simp add: raw_pairs_def)
  have "sublist k p" unfolding k key_of_def
    by (rule prefix_imp_sublist) (rule takeWhile_is_prefix)
  moreover have "sublist p (strip line)" using p by (simp add: segments_def split_on_sublist)
  ultimately have "sublist k (strip line)" by (rule sublist_order.order_trans)
  then show ?thesis using strip_sublist by (rule sublist_order.order_trans)
qed

text \<open>
  Claim C2. For a line that consists of semicolon-separated key:value pairs (every
  non-empty segment contains a colon), the keys of the dictionary returned by
  \<open>parse_state_data\<close> are exactly the keys of the non-empty segments of the line, each
  key once; the value stored for a key comes from the last pair with that key; where
  that key is declared integer (\<open>mid\<close>, \<open>x\<close>, \<open>y\<close>, \<open>z\<close>) and \<open>int\<close> accepts the value
  text, the stored value is that integer, and where the key is declared floating-point
  (the other sixteen names) and \<open>float\<close> accepts the value text, the stored value is
  that floating-point number; every key of the dictionary occurs in the raw line as a
  contiguous piece of text.
\<close>

theorem parse_state_data_keys_and_kinds:
  assumes "well_formed_line line"
  shows "set (map fst (parse_state_data ci cf line))
           = set (map key_of (filter (\<lambda>p. p \<noteq> []) (segments line)))
       \<and> distinct (map fst (parse_state_data ci cf line))
       \<and> (\<forall>k v i. last_value line k = Some v \<and> state_types k = Some KInt \<and> ci v = Some i
             \<longrightarrow> map_of (parse_state_data ci cf line) k = Some (PInt i))
       \<and> (\<forall>k v x. last_value line k = Some v \<and> state_types k = Some KFloat \<and> cf v = Some x
             \<longrightarrow> map_of (parse_state_data ci cf line) k = Some (PFloat x))
       \<and> (\<forall>k \<in> set (map fst (parse_state_data ci cf line)). sublist k line)
       \<and> {k. state_types k = Some KInt} = {''mid'', ''x'', ''y'', ''z''}
       \<and> {k. state_types k = Some KFloat}
           = {''pitch'', ''roll'', ''yaw'', ''vgx'', ''vgy'', ''vgz'', ''templ'', ''temph'',
              ''tof'', ''h'', ''bat'', ''baro'', ''time'', ''agx'', ''agy'', ''agz''}"
proof -
  have keys: "set (map fst (parse_state_data ci cf line))
           = set (map key_of (filter (\<lambda>p. p \<noteq> []) (segments line)))"
    using raw_pairs_well_formed[OF assms] keys_parse_state_data[of ci cf line]
    by (metis list.set_map)
  have ints: "\<forall>k v i. last_value line k = Some v \<and> state_types k = Some KInt \<and> ci v = Some i
             \<longrightarrow> map_of (parse_state_data ci cf line) k = Some (PInt i)"
    by (simp add: map_of_parse_state_data convert_def)
  have floats: "\<forall>k v x. last_value line k = Some v \<and> state_types k = Some KFloat \<and> cf v = Some x
             \<longrightarrow> map_of (parse_state_data ci cf line) k = Some (PFloat x)"
    by (simp add: map_of_parse_state_data convert_def)
  have sub: "\<forall>k \<in> set (map fst (parse_state_data ci cf line)). sublist k line"
    using key_sublist_line[of _ ci cf line] by simp
  have ki: "{k. state_types k = Some KInt} = {''mid'', ''x'', ''y'', ''z''}"
    by (rule set_eqI) (simp add: state_types_KInt)
  have kf: "{k. state_types k = Some KFloat}
           = {''pitch'', ''roll'', ''yaw'', ''vgx'', ''vgy'', ''vgz'', ''templ'', ''temph'',
              ''tof'', ''h'', ''bat'', ''baro'', ''time'', ''agx'', ''agy'', ''agz''}"
    by (rule set_eqI) (simp add: state_types_KFloat)
  note dist = distinct_parse_state_data[of ci cf line]
  show ?thesis
    by (intro conjI keys dist ints floats sub ki kf)
qed

theorem parse_state_data_keys_and_kinds_witness:
  "set (map fst (parse_state_data decimal_int decimal_rat ''mid:-1;x:0;y:0;bat:87;''))
       = {''mid'', ''x'', ''y'', ''bat''}
   \<and> map_of (parse_state_data decimal_int decimal_rat ''mid:-1;x:0;y:0;bat:87;'') ''mid''
       = Some (PInt (- 1))
   \<and> map_of (parse_state_data decimal_int decimal_rat ''mid:-1;x:0;y:0;bat:87;'') ''bat''
       = Some (PFloat 87)
   \<and> sublist ''bat'' ''mid:-1;x:0;y:0;bat:87;''"
proof -
  let ?L = "''mid:-1;x:0;y:0;bat:87;''"
  have seg: "segments ?L = [''mid:-1'', ''x:0'', ''y:0'', ''bat:87'', []]"
    by (simp add: segments_def strip_def py_isspace_def)
  have wf: "well_formed_line ?L"
    by (simp add: well_formed_line_def seg)
  have ks: "map key_of (filter (\<lambda>p. p \<noteq> []) (segments ?L)) = [''mid'', ''x'', ''y'', ''bat'']"
    by (simp add: seg key_of_def)
  have lv: "last_value ?L ''mid'' = Some ''-1''" "last_value ?L ''bat'' = Some ''87''"
    by (simp_all add: last_value_def raw_pairs_def seg key_of_def value_of_def)
  have ty: "state_types ''mid'' = Some KInt" "state_types ''bat'' = Some KFloat"
    by (simp_all add: state_types_def state_types_items_def)
  have cv: "decimal_int ''-1'' = Some (- 1)" "decimal_rat ''87'' = Some 87"
    by (simp_all add: decimal_int_def decimal_rat_def)
  note th = parse_state_data_keys_and_kinds [OF wf, of decimal_int decimal_rat]
  note keys = th[THEN conjunct1]
  note ints = th[THEN conjunct2, THEN conjunct2, THEN conjunct1, rule_format]
  note floats = th[THEN conjunct2, THEN conjunct2, THEN conjunct2, THEN conjunct1, rule_format]
  note sub = th[THEN conjunct2, THEN conjunct2, THEN conjunct2, THEN conjunct2,
      THEN conjunct1, rule_format]
  have k: "set (map fst (parse_state_data decimal_int decimal_rat ?L)) = {''mid'', ''x'', ''y'', ''bat''}"
    unfolding keys ks by simp
  have m: "map_of (parse_state_data decimal_int decimal_rat ?L) ''mid'' = Some (PInt (- 1))"
    by (rule ints[of "''mid''" "''-1''" "- 1"]) (simp add: lv ty cv)
  have b: "map_of (parse_state_data decimal_int decimal_rat ?L) ''bat'' = Some (PFloat 87)"
    by (rule floats[of "''bat''" "''87''" 87]) (simp add: lv ty cv)
  have s: "sublist ''bat'' ?L"
    by (rule sub[of "''bat''"]) (simp only: k, simp)
  show ?thesis by (intro conjI k m b s)
qed

text \<open>
  Claim C3. If the value text \<open>v\<close> of a key declared in \<open>state_types\<close> is a malformed
  numeral, that is, the conversion of the declared kind raises \<open>ValueError\<close>, the
  dictionary keeps \<open>v\<close> itself as a string under that key. The parser is a total
  function (the only exception the conversions raise is the one the source catches),
  the dictionary still has every key of the line, and every other key is parsed as it
  is in any other line.
\<close>

theorem malformed_numeral_kept_as_string:
  assumes "last_value line k = Some v"
    and "state_types k = Some KInt \<and> ci v = None \<or> state_types k = Some KFloat \<and> cf v = None"
  shows "map_of (parse_state_data ci cf line) k = Some (PStr v)
       \<and> fst ` set (parse_state_data ci cf line) = fst ` set (raw_pairs line)
       \<and> (\<forall>k'. k' \<noteq> k \<longrightarrow>
             map_of (parse_state_data ci cf line) k'
               = map_option (convert ci cf k') (last_value line k'))"
proof -
  have "convert ci cf k v = PStr v"
    using assms(2) by (auto simp add: convert_def)
  then have a: "map_of (parse_state_data ci cf line) k = Some (PStr v)"
    using assms(1) by (simp add: map_of_parse_state_data)
  have c: "\<forall>k'. k' \<noteq> k \<longrightarrow>
             map_of (parse_state_data ci cf line) k'
               = map_option (convert ci cf k') (last_value line k')"
    by (simp add: map_of_parse_state_data)
  show ?thesis by (intro conjI a keys_parse_state_data c)
qed

theorem malformed_numeral_kept_as_string_witness:
  "map_of (parse_state_data decimal_int decimal_rat ''bat:abc'') ''bat'' = Some (PStr ''abc'')
   \<and> map_of (parse_state_data decimal_int decimal_rat ''bat:abc;h:10'') ''bat''
       = Some (PStr ''abc'')
   \<and> map_of (parse_state_data decimal_int decimal_rat ''bat:abc;h:10'') ''h''
       = Some (PFloat 10)
   \<and> fst ` set (parse_state_data decimal_int decimal_rat ''bat:abc;h:10'') = {''bat'', ''h''}"
proof -
  have seg1: "segments ''bat:abc'' = [''bat:abc'']"
    by (simp add: segments_def strip_def py_isspace_def)
  have seg2: "segments ''bat:abc;h:10'' = [''bat:abc'', ''h:10'']"
    by (simp add: segments_def strip_def py_isspace_def)
  have rp2: "raw_pairs ''bat:abc;h:10'' = [(''bat'', ''abc''), (''h'', ''10'')]"
    by (simp add: raw_pairs_def seg2 key_of_def value_of_def)
  have lv1: "last_value ''bat:abc'' ''bat'' = Some ''abc''"
    by (simp add: last_value_def raw_pairs_def seg1 key_of_def value_of_def)
  have lv2: "last_value ''bat:abc;h:10'' ''bat'' = Some ''abc''"
    and lv3: "last_value ''bat:abc;h:10'' ''h'' = Some ''10''"
    by (simp_all add: last_value_def rp2)
  have ty: "state_types ''bat'' = Some KFloat" "state_types ''h'' = Some KFloat"
    by (simp_all add: state_types_def state_types_items_def)
  have bad: "decimal_rat ''abc'' = None"
    by (simp add: decimal_rat_def decimal_int_def)
  have good: "decimal_rat ''10'' = Some 10"
    by (simp add: decimal_rat_def decimal_int_def)
  have hyp: "state_types ''bat'' = Some KInt \<and> decimal_int ''abc'' = None
           \<or> state_types ''bat'' = Some KFloat \<and> decimal_rat ''abc'' = None"
    by (simp add: ty bad)
  note t1 = malformed_numeral_kept_as_string
    [of "''bat:abc''" "''bat''" "''abc''" decimal_int decimal_rat, OF lv1 hyp]
  note t2 = malformed_numeral_kept_as_string
    [of "''bat:abc;h:10''" "''bat''" "''abc''" decimal_int decimal_rat, OF lv2 hyp]
  have a: "map_of (parse_state_data decimal_int decimal_rat ''bat:abc'') ''bat''
            = Some (PStr ''abc'')"
    by (rule t1[THEN conjunct1])
  have b: "map_of (parse_state_data decimal_int decimal_rat ''bat:abc;h:10'') ''bat''
            = Some (PStr ''abc'')"
    by (rule t2[THEN conjunct1])
  have c: "map_of (parse_state_data decimal_int decimal_rat ''bat:abc;h:10'') ''h''
            = Some (PFloat 10)"
    using t2[THEN conjunct2, THEN conjunct2, rule_format, of "''h''"]
    by (simp add: lv3 convert_def ty good)
  have d: "fst ` set (parse_state_data decimal_int decimal_rat ''bat:abc;h:10'') = {''bat'', ''h''}"
    unfolding t2[THEN conjunct2, THEN conjunct1] rp2 by simp
  show ?thesis by (intro conjI a b c d)
qed

subsection \<open>The envelope\<close>

lemma map_of_rev_distinct:
  "distinct (map fst xs) \<Longrightarrow> map_of (rev xs) = map_of xs"
proof (induction xs)
  case Nil
  then show ?case by simp
next
  case (Cons x xs)
  then have notin: "fst x \<notin> fst ` set xs" and IH: "map_of (rev xs) = map_of xs" by simp_all
  have "map_of xs (fst x) = None" using notin by (simp add: map_of_eq_None_iff)
  then show ?case
    by (cases x) (auto simp add: IH map_add_def fun_eq_iff split: option.splits)
qed

lemma add_field_pair:
  "add_field (a, b) fs = AList.update a \<lparr>field_value = b, description = describe_key a\<rparr> fs"
  by (simp add: add_field_def)

lemma map_of_fold_add_field:
  "map_of (fold add_field kvs acc) k =
     (case map_of (rev kvs) k of
        Some v \<Rightarrow> Some \<lparr>field_value = v, description = describe_key k\<rparr>
      | None \<Rightarrow> map_of acc k)"
proof (induction kvs arbitrary: acc)
  case Nil
  then show ?case by simp
next
  case (Cons kv kvs)
  show ?case
    by (cases kv) (simp add: Cons.IH add_field_pair update_conv' map_add_def split: option.splits)
qed

lemma map_of_field_dict:
  "map_of (field_dict (build_enhanced_state ci cf line now)) k =
     map_option (\<lambda>v. \<lparr>field_value = v, description = describe_key k\<rparr>)
       (map_of (parse_state_data ci cf line) k)"
  by (simp add: build_enhanced_state_def Let_def map_of_fold_add_field
      map_of_rev_distinct distinct_parse_state_data split: option.splits)

text \<open>
  Claim C8, as the code has it. A field whose key is in neither table keeps its value
  text as a string, and in the \<open>fields\<close> entry of the state envelope it carries the
  description \<open>Unknown parameter\<close>.
\<close>

theorem unknown_field_passes_through:
  assumes "last_value line k = Some v" and "state_types k = None"
  shows "map_of (parsed (build_enhanced_state ci cf line now)) k = Some (PStr v)
       \<and> map_of (field_dict (build_enhanced_state ci cf line now)) k
           = Some \<lparr>field_value = PStr v, description = ''Unknown parameter''\<rparr>"
proof -
  have p: "map_of (parse_state_data ci cf line) k = Some (PStr v)"
    using assms by (simp add: map_of_parse_state_data convert_def)
  have "state_descriptions k = None"
    using assms(2) by (simp add: state_descriptions_None)
  then have d: "describe_key k = ''Unknown parameter''"
    by (simp add: describe_key_def)
  have a: "map_of (parsed (build_enhanced_state ci cf line now)) k = Some (PStr v)"
    using p by (simp add: build_enhanced_state_def Let_def)
  have b: "map_of (field_dict (build_enhanced_state ci cf line now)) k
           = Some \<lparr>field_value = PStr v, description = ''Unknown parameter''\<rparr>"
    by (simp add: map_of_field_dict p d)
  show ?thesis by (intro conjI a b)
qed

theorem unknown_field_passes_through_witness:
  "last_value ''foo:bar;bat:87'' ''foo'' = Some ''bar''
   \<and> state_types ''foo'' = None
   \<and> map_of (field_dict (build_enhanced_state decimal_int decimal_rat ''foo:bar;bat:87'' (0::rat)))
        ''foo''
       = Some \<lparr>field_value = PStr ''bar'', description = ''Unknown parameter''\<rparr>"
proof -
  have seg: "segments ''foo:bar;bat:87'' = [''foo:bar'', ''bat:87'']"
    by (simp add: segments_def strip_def py_isspace_def)
  have lv: "last_value ''foo:bar;bat:87'' ''foo'' = Some ''bar''"
    by (simp add: last_value_def raw_pairs_def seg key_of_def value_of_def)
  have ty: "state_types ''foo'' = None"
    by (simp add: state_types_def state_types_items_def)
  note t = unknown_field_passes_through [OF lv ty, of decimal_int decimal_rat "0::rat"]
  show ?thesis by (intro conjI lv ty t[THEN conjunct2])
qed

text \<open>
  Claim C8 as stated gives such a field the description \<open>unknown\<close>. For the datagram
  \<open>foo:bar\<close> the key \<open>foo\<close> is in neither table and the envelope describes it as
  \<open>Unknown parameter\<close>, which is a different string.
\<close>

theorem unknown_field_description_counterexample:
  "state_types ''foo'' = None
   \<and> state_descriptions ''foo'' = None
   \<and> map_option description
        (map_of (field_dict (build_enhanced_state decimal_int decimal_rat ''foo:bar'' (0::rat)))
           ''foo'')
       = Some ''Unknown parameter''
   \<and> map_option description
        (map_of (field_dict (build_enhanced_state decimal_int decimal_rat ''foo:bar'' (0::rat)))
           ''foo'')
       \<noteq> Some ''unknown''"
proof -
  have seg: "segments ''foo:bar'' = [''foo:bar'']"
    by (simp add: segments_def strip_def py_isspace_def)
  have lv: "last_value ''foo:bar'' ''foo'' = Some ''bar''"
    by (simp add: last_value_def raw_pairs_def seg key_of_def value_of_def)
  have ty: "state_types ''foo'' = None"
    by (simp add: state_types_def state_types_items_def)
  have ds: "state_descriptions ''foo'' = None"
    by (simp add: state_descriptions_def state_descriptions_items_def)
  have d: "map_option description
        (map_of (field_dict (build_enhanced_state decimal_int decimal_rat ''foo:bar'' (0::rat)))
           ''foo'')
       = Some ''Unknown parameter''"
    by (simp add: map_of_field_dict map_of_parse_state_data lv describe_key_def ds)
  have n: "map_option description
        (map_of (field_dict (build_enhanced_state decimal_int decimal_rat ''foo:bar'' (0::rat)))
           ''foo'')
       \<noteq> Some ''unknown''"
    unfolding d by simp
  show ?thesis by (intro conjI ty ds d n)
qed

section \<open>Properties of the command channel\<close>

lemma send_connected:
  "connected p \<Longrightarrow> transport p = Some t \<Longrightarrow>
   send_to_tello m p = (p, [Sendto t m (tello_addr p)])"
  by (simp add: send_to_tello_def)

lemma queue_loop_connected:
  assumes "connected p" and "transport p = Some t"
  shows "queue_loop i p evs =
         Some (p, evs @ map (\<lambda>m. Sendto t m (tello_addr p)) (drop i (command_queue p)))"
proof (induction "length (command_queue p) - i" arbitrary: i evs)
  case 0
  then show ?case by (subst queue_loop.simps) simp
next
  case (Suc n)
  then have lt: "i < length (command_queue p)" by simp
  have n: "n = length (command_queue p) - Suc i" using Suc.hyps(2) by simp
  show ?case
    by (subst queue_loop.simps)
       (simp add: lt send_connected[OF assms] Suc.hyps(1)[OF n] Cons_nth_drop_Suc[OF lt, symmetric])
qed

lemma process_command_queue_connected:
  assumes "connected p" and "transport p = Some t"
  shows "process_command_queue p =
         Some (p\<lparr>command_queue := []\<rparr>,
               (if command_queue p = [] then []
                else Log Info (ProcessingQueued (length (command_queue p)))
                       # map (\<lambda>m. Sendto t m (tello_addr p)) (command_queue p)))"
  by (simp add: process_command_queue_def queue_loop_connected[OF assms])

lemma connection_made_eq:
  "connection_made t p =
     Some (p\<lparr>transport := Some t, connected := True, command_queue := []\<rparr>,
           [Log Info (SocketReady (tello_addr p))]
           @ (if command_queue p = [] then []
              else Log Info (ProcessingQueued (length (command_queue p)))
                     # map (\<lambda>m. Sendto t m (tello_addr p)) (command_queue p))
           @ [Sendto t ''command'' (tello_addr p)])"
  by (simp add: connection_made_def Let_def process_command_queue_connected send_connected)

lemma datagrams_append: "datagrams (xs @ ys) = datagrams xs @ datagrams ys"
  by (induction xs rule: datagrams.induct) simp_all

lemma datagrams_map_Sendto:
  "datagrams (map (\<lambda>m. Sendto t m a) ms) = map (\<lambda>m. (t, m, a)) ms"
  by (induction ms) simp_all

lemma send_all_disconnected:
  "\<not> connected p \<Longrightarrow>
   send_all ms p = p\<lparr>command_queue := command_queue p @ ms\<rparr>"
proof (induction ms arbitrary: p)
  case Nil
  then show ?case by (simp add: send_all_def)
next
  case (Cons m ms)
  let ?q = "p\<lparr>command_queue := command_queue p @ [m]\<rparr>"
  have "send_all (m # ms) p = send_all ms ?q"
    using Cons.prems by (simp add: send_all_def send_to_tello_def)
  also have "\<dots> = ?q\<lparr>command_queue := command_queue ?q @ ms\<rparr>"
    using Cons.prems by (intro Cons.IH) simp
  finally show ?case by simp
qed

text \<open>
  Claim C4. A command passed to \<open>send_to_tello\<close> while the channel is not connected is
  appended to the pending queue and the call returns (with a warning, no error). After
  any sequence \<open>ms\<close> of such calls the queue is the old queue followed by \<open>ms\<close>. On the
  transition to connected (\<open>connection_made\<close>) the datagrams sent are exactly the queued
  commands, each once and in enqueue order, followed by the probe \<open>command\<close>; the call
  returns, the channel is connected and the queue is empty.
\<close>

theorem queued_commands_flushed_once_in_order:
  assumes "\<not> connected p"
  shows "send_to_tello m p =
           (p\<lparr>command_queue := command_queue p @ [m]\<rparr>, [Log Warning (QueuingMessage m)])
       \<and> command_queue (send_all ms p) = command_queue p @ ms
       \<and> \<not> connected (send_all ms p)
       \<and> map_option (\<lambda>r. (connected (fst r), command_queue (fst r), datagrams (snd r)))
           (connection_made t (send_all ms p)) =
         Some (True, [],
               map (\<lambda>c. (t, c, tello_addr p)) (command_queue p @ ms)
                 @ [(t, ''command'', tello_addr p)])"
  using assms
  by (simp add: send_to_tello_def send_all_disconnected connection_made_eq
      datagrams_append datagrams_map_Sendto)

theorem queued_commands_flushed_once_in_order_witness:
  "\<not> connected (new_protocol (''192.168.10.1'', 8889))
   \<and> command_queue (send_all [''takeoff'', ''land''] (new_protocol (''192.168.10.1'', 8889)))
       = [''takeoff'', ''land'']
   \<and> map_option (\<lambda>r. (connected (fst r), command_queue (fst r), datagrams (snd r)))
        (connection_made 0 (send_all [''takeoff'', ''land''] (new_protocol (''192.168.10.1'', 8889))))
       = Some (True, [],
               [(0, ''takeoff'', (''192.168.10.1'', 8889)),
                (0, ''land'', (''192.168.10.1'', 8889)),
                (0, ''command'', (''192.168.10.1'', 8889))])"
proof -
  have h: "\<not> connected (new_protocol (''192.168.10.1'', 8889))"
    by (simp add: new_protocol_def)
  have q: "command_queue (new_protocol (''192.168.10.1'', 8889)) = []"
    and a: "tello_addr (new_protocol (''192.168.10.1'', 8889)) = (''192.168.10.1'', 8889)"
    by (simp_all add: new_protocol_def)
  show ?thesis
    using h queued_commands_flushed_once_in_order
      [OF h, of "''x''" "[''takeoff'', ''land'']" 0]
    by (simp add: q a)
qed

text \<open>
  Claim C10. When the connected flag is true and the transport is \<open>None\<close>,
  \<open>send_to_tello\<close> only logs a warning: it hands no datagram to a transport and leaves
  the protocol object, its queue included, as it was, so a later \<open>connection_made\<close>
  behaves as if the call had never happened.
\<close>

theorem send_without_transport_drops:
  assumes "connected p" and "transport p = None"
  shows "send_to_tello m p = (p, [Log Warning TransportNotReady])
       \<and> datagrams (snd (send_to_tello m p)) = []
       \<and> command_queue (fst (send_to_tello m p)) = command_queue p
       \<and> connection_made t (fst (send_to_tello m p)) = connection_made t p"
  using assms by (simp add: send_to_tello_def)

theorem send_without_transport_drops_witness:
  "connected \<lparr>transport = None, connected = True, last_response_time = 0,
              tello_addr = (''h'', 1), command_queue = [''up 20'']\<rparr>
   \<and> send_to_tello ''land''
        \<lparr>transport = None, connected = True, last_response_time = 0,
         tello_addr = (''h'', 1), command_queue = [''up 20'']\<rparr>
       = (\<lparr>transport = None, connected = True, last_response_time = 0,
           tello_addr = (''h'', 1), command_queue = [''up 20'']\<rparr>,
          [Log Warning TransportNotReady])
   \<and> map_option (\<lambda>r. datagrams (snd r))
        (connection_made 0 (fst (send_to_tello ''land''
           \<lparr>transport = None, connected = True, last_response_time = 0,
            tello_addr = (''h'', 1), command_queue = [''up 20'']\<rparr>)))
       = Some [(0, ''up 20'', (''h'', 1)), (0, ''command'', (''h'', 1))]"
  using send_without_transport_drops
    [of "\<lparr>transport = None, connected = True, last_response_time = 0,
          tello_addr = (''h'', 1), command_queue = [''up 20'']\<rparr>" "''land''" 0]
  by (simp add: connection_made_eq)

section \<open>Properties of the health monitor\<close>







section \<open>Properties of the reconnection loop\<close>

lemma reconnect_loop_stop:
  "c r \<or> \<not> r < max_retries \<Longrightarrow>
   reconnect_loop c r d s = (s, if \<not> c r then [Log Error ReconnectFailed] else [])"
  by (subst reconnect_loop.simps) auto

lemma reconnect_loop_step:
  "\<not> c r \<Longrightarrow> r < max_retries \<Longrightarrow>
   reconnect_loop c r d s =
     (fst (reconnect_loop c (Suc r) (min 30 (d * (3 / 2))) (s\<lparr>cp_need_reconnect := True\<rparr>)),
      [Log Info (ReconnectionAttempt (Suc r) max_retries), Sleep d]
        @ snd (reconnect_loop c (Suc r) (min 30 (d * (3 / 2))) (s\<lparr>cp_need_reconnect := True\<rparr>)))"
  by (subst reconnect_loop.simps) (simp add: Let_def)

lemma reconnect_loop_shape:
  "r \<le> max_retries \<Longrightarrow>
   r + length (attempts (snd (reconnect_loop c r (backoff_delay r) s))) \<le> max_retries
   \<and> attempts (snd (reconnect_loop c r (backoff_delay r) s))
       = map Suc [r..<r + length (attempts (snd (reconnect_loop c r (backoff_delay r) s)))]
   \<and> sleeps (snd (reconnect_loop c r (backoff_delay r) s))
       = map backoff_delay [r..<r + length (attempts (snd (reconnect_loop c r (backoff_delay r) s)))]"
proof (induction "max_retries - r" arbitrary: r s)
  case 0
  then have "c r \<or> \<not> r < max_retries" by simp
  then show ?case using 0 by (simp add: reconnect_loop_stop)
next
  case (Suc k)
  show ?case
  proof (cases "\<not> c r \<and> r < max_retries")
    case False
    then have "c r \<or> \<not> r < max_retries" by simp
    then show ?thesis using Suc.prems by (simp add: reconnect_loop_stop)
  next
    case True
    let ?s' = "s\<lparr>cp_need_reconnect := True\<rparr>"
    let ?evs' = "snd (reconnect_loop c (Suc r) (backoff_delay (Suc r)) ?s')"
    have unfold: "snd (reconnect_loop c r (backoff_delay r) s)
        = [Log Info (ReconnectionAttempt (Suc r) max_retries), Sleep (backoff_delay r)] @ ?evs'"
      using True by (simp add: reconnect_loop_step)
    have k: "k = max_retries - Suc r" using Suc.hyps(2) by simp
    have le: "Suc r \<le> max_retries" using True by simp
    let ?n = "length (attempts ?evs')"
    from Suc.hyps(1)[OF k le, of ?s']
    have I1: "Suc r + ?n \<le> max_retries"
      and I2: "attempts ?evs' = map Suc [Suc r..<Suc r + ?n]"
      and I3: "sleeps ?evs' = map backoff_delay [Suc r..<Suc r + ?n]"
      by blast+
    have A: "attempts (snd (reconnect_loop c r (backoff_delay r) s)) = Suc r # attempts ?evs'"
      and S: "sleeps (snd (reconnect_loop c r (backoff_delay r) s))
                = backoff_delay r # sleeps ?evs'"
      by (simp_all add: unfold)
    have L: "r + length (Suc r # attempts ?evs') = Suc r + ?n"
      by simp
    have up: "[r..<Suc r + ?n] = r # [Suc r..<Suc r + ?n]"
      by (rule upt_conv_Cons) simp
    show ?thesis
      unfolding A S L up using I1 I2 I3 by (simp del: upt_Suc)
  qed
qed

lemma reconnect_loop_trace:
  "r \<le> max_retries \<Longrightarrow> \<forall>i. r \<le> i \<and> i \<le> max_retries \<longrightarrow> \<not> c i \<Longrightarrow>
   snd (reconnect_loop c r (backoff_delay r) s)
     = concat (map (\<lambda>i. [Log Info (ReconnectionAttempt (Suc i) max_retries),
                           Sleep (backoff_delay i)]) [r..<max_retries])
       @ [Log Error ReconnectFailed]"
proof (induction "max_retries - r" arbitrary: r s)
  case 0
  then have "r = max_retries" by simp
  then show ?case using 0 by (simp add: reconnect_loop_stop)
next
  case (Suc k)
  then have lt: "r < max_retries" and nc: "\<not> c r" by simp_all
  have k: "k = max_retries - Suc r" using Suc.hyps(2) by simp
  have le: "Suc r \<le> max_retries" using lt by simp
  have all: "\<forall>i. Suc r \<le> i \<and> i \<le> max_retries \<longrightarrow> \<not> c i" using Suc.prems by simp
  note IH = Suc.hyps(1)[OF k le all, of "s\<lparr>cp_need_reconnect := True\<rparr>"]
  have up: "[r..<max_retries] = r # [Suc r..<max_retries]"
    using lt by (simp add: upt_conv_Cons)
  show ?case
    unfolding up using IH by (simp add: reconnect_loop_step nc lt)
qed

lemma backoff_delays_10:
  "map backoff_delay [0..<10] = [5, 15 / 2, 45 / 4, 135 / 8, 405 / 16, 30, 30, 30, 30, 30]"
  by (simp add: eval_nat_numeral upt_conv_Cons)

text \<open>
  Claim C5. In one run of \<open>_reconnect\<close> at most 10 attempts are announced, numbered
  from 1 without gaps, and the sleep that belongs to attempt \<open>n\<close> (the loop announces
  the attempt, raises the flag, and then sleeps before it reads the connected flag
  again) is the \<open>n\<close>-th member of the sequence that starts at 5 and continues with
  \<open>min(30, previous * 1.5)\<close>, that is 5, 7.5, 11.25, 16.875, 25.3125, 30, 30, 30, 30,
  30. If the channel is still not connected after each of the 10 attempts, the loop
  returns after the 10th sleep and its last act is to log the error; no further
  attempt follows.
\<close>

theorem reconnect_backoff:
  "length (attempts (snd (reconnect c s))) \<le> 10
   \<and> attempts (snd (reconnect c s)) = map Suc [0..<length (attempts (snd (reconnect c s)))]
   \<and> sleeps (snd (reconnect c s))
       = map backoff_delay [0..<length (attempts (snd (reconnect c s)))]
   \<and> map backoff_delay [0..<10] = [5, 15 / 2, 45 / 4, 135 / 8, 405 / 16, 30, 30, 30, 30, 30]
   \<and> ((\<forall>i\<le>10. \<not> c i) \<longrightarrow>
        snd (reconnect c s)
          = Log Info StartingReconnection
            # concat (map (\<lambda>i. [Log Info (ReconnectionAttempt (Suc i) 10),
                                  Sleep (backoff_delay i)]) [0..<10])
            @ [Log Error ReconnectFailed])"
proof -
  have d0: "(5::rat) = backoff_delay 0" by simp
  have shape: "0 + length (attempts (snd (reconnect_loop c 0 5 s))) \<le> max_retries
     \<and> attempts (snd (reconnect_loop c 0 5 s))
         = map Suc [0..<0 + length (attempts (snd (reconnect_loop c 0 5 s)))]
     \<and> sleeps (snd (reconnect_loop c 0 5 s))
         = map backoff_delay [0..<0 + length (attempts (snd (reconnect_loop c 0 5 s)))]"
    unfolding d0 by (rule reconnect_loop_shape) simp
  have trace: "snd (reconnect_loop c 0 5 s)
     = concat (map (\<lambda>i. [Log Info (ReconnectionAttempt (Suc i) max_retries),
                           Sleep (backoff_delay i)]) [0..<max_retries])
       @ [Log Error ReconnectFailed]" if "\<forall>i\<le>10. \<not> c i"
    unfolding d0 using that by (intro reconnect_loop_trace) (simp_all add: max_retries_def)
  have a: "attempts (snd (reconnect c s)) = attempts (snd (reconnect_loop c 0 5 s))"
    and b: "sleeps (snd (reconnect c s)) = sleeps (snd (reconnect_loop c 0 5 s))"
    and e: "snd (reconnect c s) = Log Info StartingReconnection # snd (reconnect_loop c 0 5 s)"
    by (simp_all add: reconnect_def Let_def)
  show ?thesis
    unfolding a b
    using shape trace backoff_delays_10 by (simp add: e max_retries_def)
qed

theorem reconnect_backoff_witness:
  "snd (reconnect (\<lambda>n. False) (new_system (''192.168.10.1'', 8889)))
       = [Log Info StartingReconnection,
          Log Info (ReconnectionAttempt 1 10), Sleep 5,
          Log Info (ReconnectionAttempt 2 10), Sleep (15 / 2),
          Log Info (ReconnectionAttempt 3 10), Sleep (45 / 4),
          Log Info (ReconnectionAttempt 4 10), Sleep (135 / 8),
          Log Info (ReconnectionAttempt 5 10), Sleep (405 / 16),
          Log Info (ReconnectionAttempt 6 10), Sleep 30,
          Log Info (ReconnectionAttempt 7 10), Sleep 30,
          Log Info (ReconnectionAttempt 8 10), Sleep 30,
          Log Info (ReconnectionAttempt 9 10), Sleep 30,
          Log Info (ReconnectionAttempt 10 10), Sleep 30,
          Log Error ReconnectFailed]"
proof -
  have ev: "concat (map (\<lambda>i. [Log Info (ReconnectionAttempt (Suc i) 10),
                                Sleep (backoff_delay i)]) [0..<10])
      = [Log Info (ReconnectionAttempt 1 10), Sleep 5,
          Log Info (ReconnectionAttempt 2 10), Sleep (15 / 2),
          Log Info (ReconnectionAttempt 3 10), Sleep (45 / 4),
          Log Info (ReconnectionAttempt 4 10), Sleep (135 / 8),
          Log Info (ReconnectionAttempt 5 10), Sleep (405 / 16),
          Log Info (ReconnectionAttempt 6 10), Sleep 30,
          Log Info (ReconnectionAttempt 7 10), Sleep 30,
          Log Info (ReconnectionAttempt 8 10), Sleep 30,
          Log Info (ReconnectionAttempt 9 10), Sleep 30,
          Log Info (ReconnectionAttempt 10 10), Sleep 30]"
    by (simp add: eval_nat_numeral upt_conv_Cons)
  have h: "\<forall>i\<le>10. \<not> (\<lambda>n::nat. False) i" by simp
  show ?thesis
    using h reconnect_backoff [of "\<lambda>n. False" "new_system (''192.168.10.1'', 8889)"]
    by (simp only: ev) simp
qed

section \<open>The reconnect signal and the main loop\<close>

lemma reconnect_loop_tb:
  "tb_need_reconnect (fst (reconnect_loop c r d s)) = tb_need_reconnect s"
proof (induction c r d s rule: reconnect_loop.induct)
  case (1 c r d s)
  show ?case
  proof (cases "\<not> c r \<and> r < max_retries")
    case True
    then show ?thesis
      using "1.IH" by (subst reconnect_loop.simps) (simp add: Let_def)
  next
    case False
    then show ?thesis
      by (subst reconnect_loop.simps) auto
  qed
qed

lemma reconnect_loop_cp_mono:
  "cp_need_reconnect s \<Longrightarrow> cp_need_reconnect (fst (reconnect_loop c r d s))"
proof (induction c r d s rule: reconnect_loop.induct)
  case (1 c r d s)
  show ?case
  proof (cases "\<not> c r \<and> r < max_retries")
    case True
    then show ?thesis
      using "1.IH" by (subst reconnect_loop.simps) (simp add: Let_def)
  next
    case False
    then show ?thesis
      using "1.prems" by (subst reconnect_loop.simps) auto
  qed
qed

lemma reconnect_loop_cp:
  "\<not> c r \<Longrightarrow> r < max_retries \<Longrightarrow> cp_need_reconnect (fst (reconnect_loop c r d s))"
  by (subst reconnect_loop.simps) (simp add: Let_def reconnect_loop_cp_mono)

lemma main_loop_iteration_idle:
  "\<not> tb_need_reconnect s \<Longrightarrow> main_loop_iteration s = Some (s, [Sleep 1])"
  by (simp add: main_loop_iteration_def)

lemma main_loop_idle:
  "\<not> tb_need_reconnect s \<Longrightarrow> main_loop n s = Some (s, replicate n (Sleep 1))"
  by (induction n) (simp_all add: main_loop_iteration_idle)

lemma health_monitor_tick_cp:
  "cp_need_reconnect (fst (health_monitor_tick float_sub now s)) = cp_need_reconnect s"
  by (simp add: health_monitor_tick_def Let_def)

lemma setup_sockets_eq:
  "setup_sockets s =
     Some (s\<lparr>next_transport := Suc (next_transport s),
             cmd_transport := Some (next_transport s),
             tello_protocol := Some ((new_protocol (socket_addr s))
               \<lparr>transport := Some (next_transport s), connected := True, command_queue := []\<rparr>)\<rparr>,
           [Log Info (SocketReady (socket_addr s)),
            Sendto (next_transport s) ''command'' (socket_addr s)])"
  by (simp add: setup_sockets_def create_udp_socket_def connection_made_eq new_protocol_def)

text \<open>
  Claim C1 says that the main loop detects the signal raised by the command channel,
  rebuilds the command transport, waits 2 time units, sends the probe again, and that
  the signal is cleared exactly once per episode. The code is evaluated here at a
  bridge whose sockets have been set up and whose command channel then runs
  \<open>_reconnect\<close> without ever becoming connected. \<open>_reconnect\<close> raises
  \<open>cp_need_reconnect\<close>, the variable of its own module; the main loop and the health
  monitor read \<open>tb_need_reconnect\<close>, which stays false. So no number of passes of the
  main loop does anything but sleep: the transport is not closed or recreated and no
  probe is sent, and no health-monitor pass clears the flag that was raised.
\<close>

theorem reconnect_signal_never_reaches_main_loop:
  "case setup_sockets (new_system (''192.168.10.1'', 8889)) of
     None \<Rightarrow> False
   | Some (s0, evs0) \<Rightarrow>
       cmd_transport s0 = Some 0
     \<and> (let s1 = fst (reconnect (\<lambda>_. False) s0)
        in cp_need_reconnect s1 \<and> \<not> tb_need_reconnect s1
         \<and> (\<forall>n. main_loop n s1 = Some (s1, replicate n (Sleep 1)))
         \<and> (\<forall>float_sub now. cp_need_reconnect (fst (health_monitor_tick float_sub now s1))))"
proof -
  have tb: "\<not> tb_need_reconnect (fst (reconnect (\<lambda>_. False) s))"
    if "\<not> tb_need_reconnect s" for s
    using that by (simp add: reconnect_def Let_def reconnect_loop_tb)
  have cp: "cp_need_reconnect (fst (reconnect (\<lambda>_. False) s))" for s
    by (simp add: reconnect_def Let_def reconnect_loop_cp max_retries_def)
  show ?thesis
    by (simp add: setup_sockets_eq Let_def cp tb main_loop_idle health_monitor_tick_cp
        new_system_def)
qed

section \<open>Properties of the client registry\<close>

text \<open>
  Claim C9. Registering the same client handle twice and unregistering it once leaves
  an initially empty registry empty; registering is idempotent on the membership set.
\<close>

theorem register_twice_unregister_once:
  "unregister ws (register ws (register ws {})) = Inr {}
   \<and> register ws (register ws S) = register ws S"
  by (simp add: register_def unregister_def)

end
